theory Spec2Isabelle
  imports Main "HOL-Library.Word"
begin

section \<open>The button of \<^verbatim>\<open>src/DebouncedButton.h\<close>\<close>

text \<open>
  Timestamps are \<^verbatim>\<open>uint32_t\<close>: subtraction wraps around modulo \<open>2 ^ 32\<close> and the
  order is the unsigned one, which is what \<open>32 word\<close> gives.
\<close>

type_synonym u32 = "32 word"

datatype Input =
    NONE
  | CLICK
  | DOUBLE_CLICK
  | LONG_PRESS
  | CLICK_AND_LONG_PRESS
  | DOUBLE_CLICK_AND_LONG_PRESS
  | RELEASE

datatype State =
    IDLE
  | PRESSED
  | PRESSED_PENDING
  | CLICKED_PENDING
  | CLICKED_PRESSED_PENDING
  | DOUBLE_CLICKED_PENDING
  | DOUBLE_CLICKED_PRESSED_PENDING

definition DEBOUNCE_MS :: u32 where
  "DEBOUNCE_MS = 20"

definition CLICKED_CUTOFF_MS :: u32 where
  "CLICKED_CUTOFF_MS = 150"

definition DOUBLE_CLICK_TIMEOUT_MS :: u32 where
  "DOUBLE_CLICK_TIMEOUT_MS = 150"

text \<open>
  The private members of the class; the field \<open>m_x\<close> is the member \<^verbatim>\<open>_x\<close> (an
  identifier cannot start with an underscore here).
\<close>

record DebouncedButton =
  m_pressed_state :: bool
  m_state :: State
  m_prev_reading :: bool
  m_debounced_reading :: bool
  m_last_reading_change_tm :: u32
  m_last_change_tm :: u32
  m_prev_last_change_tm :: u32

text \<open>
  The constructor \<^verbatim>\<open>DebouncedButton::DebouncedButton(bool pressed_state)\<close>: the default
  member initialisers of the header, then the body's \<^verbatim>\<open>_prev_reading = !pressed_state\<close>.
\<close>

definition DebouncedButton :: "bool \<Rightarrow> DebouncedButton" where
  "DebouncedButton pressed_state =
     \<lparr> m_pressed_state = pressed_state,
       m_state = IDLE,
       m_prev_reading = (\<not> pressed_state),
       m_debounced_reading = False,
       m_last_reading_change_tm = 0,
       m_last_change_tm = 0,
       m_prev_last_change_tm = 0 \<rparr>"

text \<open>\<^verbatim>\<open>bool state() const { return _debounced_reading == _pressed_state; }\<close>\<close>

definition state :: "DebouncedButton \<Rightarrow> bool" where
  "state b = (m_debounced_reading b = m_pressed_state b)"

text \<open>
  \<^verbatim>\<open>uint32_t duration(uint32_t tm) const { return max(uint32_t(0), tm - _last_change_tm); }\<close>
  Both arguments of \<^verbatim>\<open>max\<close> are unsigned 32-bit values; the difference has wrapped
  before \<^verbatim>\<open>max\<close> sees it.
\<close>

definition duration :: "DebouncedButton \<Rightarrow> u32 \<Rightarrow> u32" where
  "duration b tm = max (0 :: u32) (tm - m_last_change_tm b)"

text \<open>\<^verbatim>\<open>uint32_t prev_duration(uint32_t tm) const { return _last_change_tm - _prev_last_change_tm; }\<close>\<close>

definition prev_duration :: "DebouncedButton \<Rightarrow> u32 \<Rightarrow> u32" where
  "prev_duration b tm = m_last_change_tm b - m_prev_last_change_tm b"

text \<open>\<^verbatim>\<open>void reset_duration() { _last_change_tm = _prev_last_change_tm = 0; }\<close>\<close>

definition reset_duration :: "DebouncedButton \<Rightarrow> DebouncedButton" where
  "reset_duration b = b\<lparr> m_prev_last_change_tm := 0, m_last_change_tm := 0 \<rparr>"

text \<open>
  \<^verbatim>\<open>Input DebouncedButton::update(bool reading, uint32_t tm)\<close> of
  \<^verbatim>\<open>src/DebouncedButton.cpp\<close>, returning the input together with the object after the
  call. The parameter \<^verbatim>\<open>reading\<close> is overwritten by its normalised value in the first
  statement; \<open>raw\<close> is the argument as passed and \<open>reading\<close> the value after that
  statement. The local \<^verbatim>\<open>input\<close> starts as \<^verbatim>\<open>NONE\<close> and each \<^verbatim>\<open>if\<close> chain leaves
  it and \<^verbatim>\<open>_state\<close> alone when no branch applies.
\<close>

definition update :: "DebouncedButton \<Rightarrow> bool \<Rightarrow> u32 \<Rightarrow> Input \<times> DebouncedButton" where
  "update b raw tm =
    (let reading = (if \<not> m_pressed_state b then \<not> raw else raw) in
     if m_prev_reading b \<noteq> reading then
       (NONE, b\<lparr> m_last_reading_change_tm := tm, m_prev_reading := reading \<rparr>)
     else
       let reading_duration = tm - m_last_reading_change_tm b in
       if m_debounced_reading b \<noteq> reading then
         if reading_duration < DEBOUNCE_MS then (NONE, b)
         else
           let (input, st) =
             (if m_state b = IDLE then (NONE, PRESSED_PENDING)
              else if m_state b = PRESSED_PENDING then (NONE, CLICKED_PENDING)
              else if m_state b = PRESSED then (RELEASE, IDLE)
              else if m_state b = CLICKED_PENDING then (NONE, CLICKED_PRESSED_PENDING)
              else if m_state b = CLICKED_PRESSED_PENDING then (NONE, DOUBLE_CLICKED_PENDING)
              else if m_state b = DOUBLE_CLICKED_PENDING then (NONE, DOUBLE_CLICKED_PRESSED_PENDING)
              else if m_state b = DOUBLE_CLICKED_PRESSED_PENDING then (DOUBLE_CLICK, CLICKED_PENDING)
              else (NONE, m_state b))
           in (input, b\<lparr> m_state := st,
                          m_debounced_reading := reading,
                          m_prev_last_change_tm := m_last_change_tm b,
                          m_last_change_tm := tm \<rparr>)
       else
         if m_state b = CLICKED_PENDING then
           (if duration b tm > DOUBLE_CLICK_TIMEOUT_MS
            then (CLICK, b\<lparr> m_state := IDLE \<rparr>) else (NONE, b))
         else if m_state b = PRESSED_PENDING then
           (if duration b tm \<ge> CLICKED_CUTOFF_MS
            then (LONG_PRESS, b\<lparr> m_state := PRESSED \<rparr>) else (NONE, b))
         else if m_state b = CLICKED_PRESSED_PENDING then
           (if duration b tm \<ge> CLICKED_CUTOFF_MS
            then (CLICK_AND_LONG_PRESS, b\<lparr> m_state := PRESSED \<rparr>) else (NONE, b))
         else if m_state b = DOUBLE_CLICKED_PENDING then
           (if duration b tm \<ge> CLICKED_CUTOFF_MS
            then (DOUBLE_CLICK, b\<lparr> m_state := IDLE \<rparr>) else (NONE, b))
         else if m_state b = DOUBLE_CLICKED_PRESSED_PENDING then
           (if duration b tm \<ge> CLICKED_CUTOFF_MS
            then (DOUBLE_CLICK_AND_LONG_PRESS, b\<lparr> m_state := PRESSED \<rparr>) else (NONE, b))
         else (NONE, b))"

text \<open>
  The loop of \<^verbatim>\<open>TestingScript::execute\<close> in the tests: one \<^verbatim>\<open>update\<close> per script
  point, in order, on the same object. The model returns the inputs delivered, in call
  order, and the object after the last call.
\<close>

fun execute :: "DebouncedButton \<Rightarrow> (bool \<times> u32) list \<Rightarrow> Input list \<times> DebouncedButton" where
  "execute b [] = ([], b)"
| "execute b ((reading, tm) # script) =
     (let (input, b1) = update b reading tm;
          (inputs, b2) = execute b1 script
      in (input # inputs, b2))"

text \<open>The normalisation done by the first statement of \<^verbatim>\<open>update\<close>.\<close>

definition normalized :: "DebouncedButton \<Rightarrow> bool \<Rightarrow> bool" where
  "normalized b raw = (if \<not> m_pressed_state b then \<not> raw else raw)"

section \<open>The transition tables as the specification words them\<close>

text \<open>
  The table of transitions driven by a debounced change, row by row: the state after the
  change and the gesture emitted.
\<close>

fun spec_change_table :: "State \<Rightarrow> State \<times> Input" where
  "spec_change_table IDLE = (PRESSED_PENDING, NONE)"
| "spec_change_table PRESSED_PENDING = (CLICKED_PENDING, NONE)"
| "spec_change_table PRESSED = (IDLE, RELEASE)"
| "spec_change_table CLICKED_PENDING = (CLICKED_PRESSED_PENDING, NONE)"
| "spec_change_table CLICKED_PRESSED_PENDING = (DOUBLE_CLICKED_PENDING, NONE)"
| "spec_change_table DOUBLE_CLICKED_PENDING = (DOUBLE_CLICKED_PRESSED_PENDING, NONE)"
| "spec_change_table DOUBLE_CLICKED_PRESSED_PENDING = (CLICKED_PENDING, DOUBLE_CLICK)"

text \<open>
  The table of transitions driven by the time spent in the debounced state, with the
  comparison of each row; a state without a row, or a row whose condition is false,
  keeps the state and emits nothing.
\<close>

fun spec_dwell_table :: "State \<Rightarrow> u32 \<Rightarrow> State \<times> Input" where
  "spec_dwell_table CLICKED_PENDING d =
     (if d > 150 then (IDLE, CLICK) else (CLICKED_PENDING, NONE))"
| "spec_dwell_table PRESSED_PENDING d =
     (if d \<ge> 150 then (PRESSED, LONG_PRESS) else (PRESSED_PENDING, NONE))"
| "spec_dwell_table CLICKED_PRESSED_PENDING d =
     (if d \<ge> 150 then (PRESSED, CLICK_AND_LONG_PRESS) else (CLICKED_PRESSED_PENDING, NONE))"
| "spec_dwell_table DOUBLE_CLICKED_PENDING d =
     (if d \<ge> 150 then (IDLE, DOUBLE_CLICK) else (DOUBLE_CLICKED_PENDING, NONE))"
| "spec_dwell_table DOUBLE_CLICKED_PRESSED_PENDING d =
     (if d \<ge> 150 then (PRESSED, DOUBLE_CLICK_AND_LONG_PRESS)
      else (DOUBLE_CLICKED_PRESSED_PENDING, NONE))"
| "spec_dwell_table IDLE d = (IDLE, NONE)"
| "spec_dwell_table PRESSED d = (PRESSED, NONE)"

section \<open>Concrete objects and scripts\<close>

text \<open>
  The object after \<^verbatim>\<open>update(true, 0)\<close> on a fresh button of default polarity.
\<close>

definition pressed_at_0 :: DebouncedButton where
  "pressed_at_0 = (DebouncedButton True)\<lparr> m_prev_reading := True \<rparr>"

text \<open>
  The first four calls of the single click: pressed at 0, still pressed at 20, released
  at 160, still released at 180.
\<close>

definition click_script :: "(bool \<times> u32) list" where
  "click_script = [(True, 0), (True, 20), (False, 160), (False, 180)]"

text \<open>The object those four calls leave behind on a fresh button of default polarity.\<close>

definition released_at_180 :: DebouncedButton where
  "released_at_180 =
     \<lparr> m_pressed_state = True,
       m_state = CLICKED_PENDING,
       m_prev_reading = False,
       m_debounced_reading = False,
       m_last_reading_change_tm = 160,
       m_last_change_tm = 180,
       m_prev_last_change_tm = 20 \<rparr>"

text \<open>Polling with the button released: \<^verbatim>\<open>update(false, t)\<close> for each \<open>t\<close> in turn.\<close>

definition released_polls :: "u32 list \<Rightarrow> (bool \<times> u32) list" where
  "released_polls ts = map (\<lambda>t. (False, t)) ts"

text \<open>
  A script in which no reading is seen to last: \<open>rapid_from r0 t0\<close> holds of the calls
  that follow a call with reading \<open>r0\<close> whose run of equal readings began at \<open>t0\<close>. A
  call with the same reading must come less than \<open>DEBOUNCE_MS\<close> after the run began; a
  call with the other reading begins a new run at its own timestamp. The first call of a
  script begins the first run.
\<close>

fun rapid_from :: "bool \<Rightarrow> u32 \<Rightarrow> (bool \<times> u32) list \<Rightarrow> bool" where
  "rapid_from r0 t0 [] = True"
| "rapid_from r0 t0 ((r, t) # script) =
     (if r = r0 then t0 \<le> t \<and> t - t0 < DEBOUNCE_MS \<and> rapid_from r0 t0 script
      else t0 \<le> t \<and> rapid_from r t script)"

fun rapid :: "(bool \<times> u32) list \<Rightarrow> bool" where
  "rapid [] = True"
| "rapid ((r, t) # script) = rapid_from r t script"

text \<open>
  Raw readings that change every 10 ms from 1000 to 1140, beginning with \<open>False\<close>, and
  one more sample of the last reading 10 ms after its change.
\<close>

definition bounce_script :: "(bool \<times> u32) list" where
  "bounce_script =
     [(False, 1000), (True, 1010), (False, 1020), (True, 1030), (False, 1040),
      (True, 1050), (False, 1060), (True, 1070), (False, 1080), (True, 1090),
      (False, 1100), (True, 1110), (False, 1120), (True, 1130), (False, 1140),
      (False, 1150)]"

text \<open>The same script with every raw reading negated.\<close>

definition negated :: "(bool \<times> u32) list \<Rightarrow> (bool \<times> u32) list" where
  "negated script = map (\<lambda>(r, t). (\<not> r, t)) script"

section \<open>One call of update\<close>

lemmas consts_defs = DEBOUNCE_MS_def CLICKED_CUTOFF_MS_def DOUBLE_CLICK_TIMEOUT_MS_def

text \<open>
  C4. Whatever the object holds, a call whose normalised reading differs from the stored
  previous reading returns \<open>NONE\<close>, stores the timestamp as the time of the last reading
  change and the normalised reading as the previous reading, and leaves every other
  member as it was: the gesture state, the debounced reading, the two change times and
  the polarity.
\<close>

theorem update_reading_changed:
  "m_prev_reading b \<noteq> normalized b raw \<Longrightarrow>
     update b raw tm =
       (NONE, b\<lparr> m_last_reading_change_tm := tm, m_prev_reading := normalized b raw \<rparr>)
     \<and> m_last_reading_change_tm (snd (update b raw tm)) = tm
     \<and> m_prev_reading (snd (update b raw tm)) = normalized b raw
     \<and> m_state (snd (update b raw tm)) = m_state b
     \<and> m_debounced_reading (snd (update b raw tm)) = m_debounced_reading b
     \<and> m_last_change_tm (snd (update b raw tm)) = m_last_change_tm b
     \<and> m_prev_last_change_tm (snd (update b raw tm)) = m_prev_last_change_tm b
     \<and> m_pressed_state (snd (update b raw tm)) = m_pressed_state b"
  by (simp add: update_def normalized_def)

theorem update_reading_changed_witness:
  "m_prev_reading (DebouncedButton True) \<noteq> normalized (DebouncedButton True) True
   \<and> update (DebouncedButton True) True 7 =
       (NONE, (DebouncedButton True)\<lparr> m_last_reading_change_tm := 7, m_prev_reading := True \<rparr>)
   \<and> m_state (snd (update (DebouncedButton True) True 7)) = IDLE
   \<and> m_debounced_reading (snd (update (DebouncedButton True) True 7)) = False
   \<and> m_last_change_tm (snd (update (DebouncedButton True) True 7)) = 0"
proof -
  have h: "m_prev_reading (DebouncedButton True) \<noteq> normalized (DebouncedButton True) True"
    by (simp add: DebouncedButton_def normalized_def)
  have n: "normalized (DebouncedButton True) True = True"
    by (simp add: DebouncedButton_def normalized_def)
  have i: "m_state (DebouncedButton True) = IDLE"
    "m_debounced_reading (DebouncedButton True) = False"
    "m_last_change_tm (DebouncedButton True) = 0"
    by (simp_all add: DebouncedButton_def)
  show ?thesis
    using h update_reading_changed [OF h, of 7] by (simp add: n i)
qed

text \<open>
  C1. A call that accepts a debounced change (the normalised reading equals the stored
  previous reading, differs from the debounced reading, and the wrapped difference between
  the timestamp and the time of the last reading change is at least \<open>DEBOUNCE_MS\<close>) moves
  the gesture state and emits exactly as the row of the change table for the current
  state says, sets the debounced reading to the normalised reading, moves the old
  last change time into the previous change time and stores the timestamp as the last
  change time; the polarity and the two members of the debounce filter stay as they were.
\<close>

theorem update_debounced_change:
  "m_prev_reading b = normalized b raw \<Longrightarrow>
   m_debounced_reading b \<noteq> normalized b raw \<Longrightarrow>
   DEBOUNCE_MS \<le> tm - m_last_reading_change_tm b \<Longrightarrow>
     update b raw tm =
       (snd (spec_change_table (m_state b)),
        b\<lparr> m_state := fst (spec_change_table (m_state b)),
           m_debounced_reading := normalized b raw,
           m_prev_last_change_tm := m_last_change_tm b,
           m_last_change_tm := tm \<rparr>)
     \<and> m_state (snd (update b raw tm)) = fst (spec_change_table (m_state b))
     \<and> m_debounced_reading (snd (update b raw tm)) = normalized b raw
     \<and> m_prev_last_change_tm (snd (update b raw tm)) = m_last_change_tm b
     \<and> m_last_change_tm (snd (update b raw tm)) = tm"
  by (cases "m_state b") (simp_all add: update_def normalized_def not_less)

lemma update_fresh_pressed: "update (DebouncedButton True) True 0 = (NONE, pressed_at_0)"
  by (simp add: update_def DebouncedButton_def pressed_at_0_def)

theorem update_debounced_change_witness:
  "m_prev_reading pressed_at_0 = normalized pressed_at_0 True
   \<and> m_debounced_reading pressed_at_0 \<noteq> normalized pressed_at_0 True
   \<and> DEBOUNCE_MS \<le> 20 - m_last_reading_change_tm pressed_at_0
   \<and> update pressed_at_0 True 20 =
        (NONE, pressed_at_0\<lparr> m_state := PRESSED_PENDING, m_debounced_reading := True,
                              m_prev_last_change_tm := 0, m_last_change_tm := 20 \<rparr>)"
proof -
  have h1: "m_prev_reading pressed_at_0 = normalized pressed_at_0 True"
    by (simp add: pressed_at_0_def DebouncedButton_def normalized_def)
  have h2: "m_debounced_reading pressed_at_0 \<noteq> normalized pressed_at_0 True"
    by (simp add: pressed_at_0_def DebouncedButton_def normalized_def)
  have h3: "DEBOUNCE_MS \<le> 20 - m_last_reading_change_tm pressed_at_0"
    by (simp add: pressed_at_0_def DebouncedButton_def DEBOUNCE_MS_def)
  have v: "m_state pressed_at_0 = IDLE" "normalized pressed_at_0 True = True"
    "m_last_change_tm pressed_at_0 = 0"
    by (simp_all add: pressed_at_0_def DebouncedButton_def normalized_def)
  show ?thesis
    using h1 h2 h3 update_debounced_change [OF h1 h2 h3] by (simp add: v)
qed

text \<open>
  C2. A call in which the normalised reading equals both the stored previous reading and
  the debounced reading moves the gesture state and emits exactly as the row of the dwell
  table for the current state says, the row being decided by \<open>duration b tm\<close> with the
  comparison of that row (strictly greater than 150 in \<open>CLICKED_PENDING\<close>, at least 150
  in the four other pending states); nothing but the gesture state is written, and when
  the row does not fire (and always in \<open>IDLE\<close> and \<open>PRESSED\<close>) the object is unchanged and
  the call returns \<open>NONE\<close>.
\<close>

theorem update_dwell:
  "m_prev_reading b = normalized b raw \<Longrightarrow>
   m_debounced_reading b = normalized b raw \<Longrightarrow>
     update b raw tm =
       (snd (spec_dwell_table (m_state b) (duration b tm)),
        b\<lparr> m_state := fst (spec_dwell_table (m_state b) (duration b tm)) \<rparr>)
     \<and> (fst (spec_dwell_table (m_state b) (duration b tm)) = m_state b \<longrightarrow>
          update b raw tm = (NONE, b))
     \<and> (m_state b = IDLE \<or> m_state b = PRESSED \<longrightarrow> update b raw tm = (NONE, b))"
  by (cases "m_state b") (simp_all add: update_def normalized_def consts_defs)

theorem update_dwell_witness:
  "m_prev_reading released_at_180 = normalized released_at_180 False
   \<and> m_debounced_reading released_at_180 = normalized released_at_180 False
   \<and> duration released_at_180 330 = 150
   \<and> update released_at_180 False 330 = (NONE, released_at_180)
   \<and> duration released_at_180 331 = 151
   \<and> update released_at_180 False 331 = (CLICK, released_at_180\<lparr> m_state := IDLE \<rparr>)"
proof -
  have h1: "m_prev_reading released_at_180 = normalized released_at_180 False"
    by (simp add: released_at_180_def normalized_def)
  have h2: "m_debounced_reading released_at_180 = normalized released_at_180 False"
    by (simp add: released_at_180_def normalized_def)
  have d: "duration released_at_180 330 = 150" "duration released_at_180 331 = 151"
    by (simp_all add: released_at_180_def duration_def)
  have v: "m_state released_at_180 = CLICKED_PENDING"
    by (simp add: released_at_180_def)
  have "update released_at_180 False 330 = (NONE, released_at_180)"
    using update_dwell [OF h1 h2, of 330] by (simp add: d v)
  moreover have "update released_at_180 False 331 = (CLICK, released_at_180\<lparr> m_state := IDLE \<rparr>)"
    using update_dwell [OF h1 h2, of 331] by (simp add: d v)
  ultimately show ?thesis
    using h1 h2 d by simp
qed

section \<open>The accessors\<close>

text \<open>
  On unsigned values the maximum with zero is the other argument, so \<open>duration\<close> is the
  wrapped difference itself.
\<close>

lemma duration_wrapped_difference: "duration b tm = tm - m_last_change_tm b"
  by (simp add: duration_def)

lemma duration_zero_iff: "duration b tm = 0 \<longleftrightarrow> tm = m_last_change_tm b"
  by (simp add: duration_def)

text \<open>
  C5. The accessor does not floor at zero. After \<^verbatim>\<open>update(true, 0)\<close> and
  \<^verbatim>\<open>update(true, 20)\<close> on a fresh button of default polarity the last change time is
  20, and \<open>duration\<close> at the earlier timestamp 10 is \<open>2 ^ 32 - 10\<close>, not 0.
\<close>

theorem duration_before_last_change:
  "m_last_change_tm (snd (execute (DebouncedButton True) [(True, 0), (True, 20)])) = 20
   \<and> duration (snd (execute (DebouncedButton True) [(True, 0), (True, 20)])) 10 = 4294967286"
  by (simp add: update_def DebouncedButton_def consts_defs duration_def)

text \<open>
  C10. With inverted polarity (\<open>pressed_state = False\<close>) the accessor \<open>state\<close> is the
  negation of the stored debounced reading: it is true on the freshly constructed
  object, and it is false after any call that accepts a debounced press (raw reading
  \<open>False\<close>, normalised to \<open>True\<close>, equal to the previous reading, different from the
  debounced reading, stable for \<open>DEBOUNCE_MS\<close>).
\<close>

theorem state_inverted_polarity:
  "state (DebouncedButton False)
   \<and> (\<forall>b. \<not> m_pressed_state b \<longrightarrow> state b = (\<not> m_debounced_reading b))
   \<and> (\<forall>b tm. \<not> m_pressed_state b \<and> m_prev_reading b \<and> \<not> m_debounced_reading b
          \<and> DEBOUNCE_MS \<le> tm - m_last_reading_change_tm b
        \<longrightarrow> m_debounced_reading (snd (update b False tm))
            \<and> \<not> state (snd (update b False tm)))"
  by (auto simp add: state_def DebouncedButton_def update_def not_less Let_def
        split: prod.splits)

theorem state_inverted_polarity_witness:
  "\<not> m_pressed_state (DebouncedButton False)
   \<and> m_prev_reading (DebouncedButton False)
   \<and> \<not> m_debounced_reading (DebouncedButton False)
   \<and> DEBOUNCE_MS \<le> 20 - m_last_reading_change_tm (DebouncedButton False)
   \<and> state (DebouncedButton False)
   \<and> \<not> state (snd (update (DebouncedButton False) False 20))"
proof -
  have h: "\<not> m_pressed_state (DebouncedButton False) \<and> m_prev_reading (DebouncedButton False)
      \<and> \<not> m_debounced_reading (DebouncedButton False)
      \<and> DEBOUNCE_MS \<le> 20 - m_last_reading_change_tm (DebouncedButton False)"
    by (simp add: DebouncedButton_def DEBOUNCE_MS_def)
  from state_inverted_polarity have
    a: "state (DebouncedButton False)" and
    c: "\<forall>b tm. \<not> m_pressed_state b \<and> m_prev_reading b \<and> \<not> m_debounced_reading b
          \<and> DEBOUNCE_MS \<le> tm - m_last_reading_change_tm b
        \<longrightarrow> m_debounced_reading (snd (update b False tm))
            \<and> \<not> state (snd (update b False tm))"
    by blast+
  from c h have "\<not> state (snd (update (DebouncedButton False) False 20))"
    by blast
  with h a show ?thesis by blast
qed

section \<open>Sequences of calls\<close>

lemma execute_step:
  "execute b ((reading, tm) # script) =
     (fst (update b reading tm) # fst (execute (snd (update b reading tm)) script),
      snd (execute (snd (update b reading tm)) script))"
  by (simp split: prod.splits)

lemma execute_append:
  "execute b (xs @ ys) =
     (fst (execute b xs) @ fst (execute (snd (execute b xs)) ys),
      snd (execute (snd (execute b xs)) ys))"
proof (induction xs arbitrary: b)
  case Nil
  then show ?case by simp
next
  case (Cons c xs)
  obtain reading tm where c: "c = (reading, tm)" by (cases c)
  show ?case
    unfolding c append_Cons execute_step Cons.IH by simp
qed

lemma length_execute: "length (fst (execute b script)) = length script"
proof (induction script arbitrary: b)
  case Nil
  then show ?case by simp
next
  case (Cons c script)
  obtain reading tm where c: "c = (reading, tm)" by (cases c)
  show ?case
    unfolding c execute_step using Cons.IH by simp
qed

text \<open>
  If the gesture state and the debounced reading agree before a call, they agree after
  it: an accepted change flips the reading and crosses between the two groups of states,
  a dwell transition stays within the group.
\<close>

lemma update_keeps_agreement:
  assumes "m_debounced_reading b =
      (m_state b \<in> {PRESSED, PRESSED_PENDING, CLICKED_PRESSED_PENDING,
                    DOUBLE_CLICKED_PRESSED_PENDING})"
  shows "m_debounced_reading (snd (update b raw tm)) =
      (m_state (snd (update b raw tm)) \<in> {PRESSED, PRESSED_PENDING, CLICKED_PRESSED_PENDING,
                    DOUBLE_CLICKED_PRESSED_PENDING})"
  using assms by (cases "m_state b") (auto simp add: update_def Let_def)

lemma execute_keeps_agreement:
  assumes "m_debounced_reading b =
      (m_state b \<in> {PRESSED, PRESSED_PENDING, CLICKED_PRESSED_PENDING,
                    DOUBLE_CLICKED_PRESSED_PENDING})"
  shows "m_debounced_reading (snd (execute b script)) =
      (m_state (snd (execute b script)) \<in> {PRESSED, PRESSED_PENDING, CLICKED_PRESSED_PENDING,
                    DOUBLE_CLICKED_PRESSED_PENDING})"
  using assms
proof (induction script arbitrary: b)
  case Nil
  then show ?case by simp
next
  case (Cons c script)
  obtain reading tm where c: "c = (reading, tm)" by (cases c)
  show ?case
    unfolding c execute_step
    using Cons.IH [OF update_keeps_agreement [OF Cons.prems, of reading tm]] by simp
qed

text \<open>
  C9. After any sequence of calls on a freshly constructed button, of either polarity,
  the debounced reading is true exactly when the gesture state is one of \<open>PRESSED\<close>,
  \<open>PRESSED_PENDING\<close>, \<open>CLICKED_PRESSED_PENDING\<close>, \<open>DOUBLE_CLICKED_PRESSED_PENDING\<close>, and
  false exactly when it is one of \<open>IDLE\<close>, \<open>CLICKED_PENDING\<close>, \<open>DOUBLE_CLICKED_PENDING\<close>.
\<close>

theorem state_agrees_with_debounced_reading:
  "(m_debounced_reading (snd (execute (DebouncedButton pressed_state) script)) =
      (m_state (snd (execute (DebouncedButton pressed_state) script))
         \<in> {PRESSED, PRESSED_PENDING, CLICKED_PRESSED_PENDING, DOUBLE_CLICKED_PRESSED_PENDING}))
   \<and> ((\<not> m_debounced_reading (snd (execute (DebouncedButton pressed_state) script))) =
      (m_state (snd (execute (DebouncedButton pressed_state) script))
         \<in> {IDLE, CLICKED_PENDING, DOUBLE_CLICKED_PENDING}))"
proof -
  let ?b = "snd (execute (DebouncedButton pressed_state) script)"
  have "m_debounced_reading (DebouncedButton pressed_state) =
      (m_state (DebouncedButton pressed_state) \<in> {PRESSED, PRESSED_PENDING,
         CLICKED_PRESSED_PENDING, DOUBLE_CLICKED_PRESSED_PENDING})"
    by (simp add: DebouncedButton_def)
  from execute_keeps_agreement [OF this, of script]
  have a: "m_debounced_reading ?b =
      (m_state ?b \<in> {PRESSED, PRESSED_PENDING, CLICKED_PRESSED_PENDING,
         DOUBLE_CLICKED_PRESSED_PENDING})" .
  then show ?thesis
    by (cases "m_state ?b") simp_all
qed

section \<open>The single click\<close>

lemma execute_click_script:
  "execute (DebouncedButton True) click_script = ([NONE, NONE, NONE, NONE], released_at_180)"
  by (simp add: click_script_def released_at_180_def update_def DebouncedButton_def
        consts_defs duration_def)

lemma update_released_early:
  assumes "180 \<le> t" "t \<le> 330"
  shows "update released_at_180 False t = (NONE, released_at_180)"
proof -
  have "\<not> 150 < t - 180" using assms by unat_arith
  then show ?thesis
    by (simp add: update_def released_at_180_def consts_defs duration_def)
qed

lemma update_released_late:
  assumes "330 < t"
  shows "update released_at_180 False t = (CLICK, released_at_180\<lparr> m_state := IDLE \<rparr>)"
proof -
  have "150 < t - 180" using assms by unat_arith
  then show ?thesis
    by (simp add: update_def released_at_180_def consts_defs duration_def)
qed

lemma update_released_idle:
  "update (released_at_180\<lparr> m_state := IDLE \<rparr>) False t =
     (NONE, released_at_180\<lparr> m_state := IDLE \<rparr>)"
  by (simp add: update_def released_at_180_def)

lemma execute_polls_early:
  "\<forall>t \<in> set ts. 180 \<le> t \<and> t \<le> 330 \<Longrightarrow>
     execute released_at_180 (released_polls ts) = (replicate (length ts) NONE, released_at_180)"
proof (induction ts)
  case Nil
  then show ?case by (simp add: released_polls_def)
next
  case (Cons t ts)
  then have "update released_at_180 False t = (NONE, released_at_180)"
    by (simp add: update_released_early)
  with Cons show ?case by (simp add: released_polls_def)
qed

lemma execute_polls_idle:
  "execute (released_at_180\<lparr> m_state := IDLE \<rparr>) (released_polls ts) =
     (replicate (length ts) NONE, released_at_180\<lparr> m_state := IDLE \<rparr>)"
  by (induction ts) (simp_all add: released_polls_def update_released_idle)

lemma released_polls_append:
  "released_polls (pre @ t # post) = released_polls pre @ (False, t) # released_polls post"
  by (simp add: released_polls_def)

text \<open>
  C7, as stated, fails: when the released button is polled at 331 and then at 351, the
  click is delivered by the call at 331 and the call at 351 returns \<open>NONE\<close>.
\<close>

theorem single_click_delivered_at_331:
  "fst (execute (DebouncedButton True) (click_script @ released_polls [331, 351])) =
     [NONE, NONE, NONE, NONE, CLICK, NONE]"
  by (simp add: execute_append execute_click_script released_polls_def
        update_released_late update_released_idle)

text \<open>
  C7, amended. On a fresh button of default polarity, after \<^verbatim>\<open>update(true, 0)\<close>,
  \<^verbatim>\<open>update(true, 20)\<close>, \<^verbatim>\<open>update(false, 160)\<close>, \<^verbatim>\<open>update(false, 180)\<close>, polling with
  \<^verbatim>\<open>update(false, t)\<close>: as long as every timestamp is between 180 and 330 every call
  returns \<open>NONE\<close>; the first call with a timestamp above 330 returns \<open>CLICK\<close>; every call
  after that one returns \<open>NONE\<close>. So the click is delivered exactly once, by the first
  poll later than 330 (the accepted release at 180 plus \<open>DOUBLE_CLICK_TIMEOUT_MS\<close>), which
  is the call at 351 only when no poll falls between 331 and 350.
\<close>

theorem single_click_delivery:
  "\<forall>t \<in> set pre. 180 \<le> t \<and> t \<le> 330 \<Longrightarrow>
     fst (execute (DebouncedButton True) (click_script @ released_polls pre)) =
       replicate (4 + length pre) NONE
     \<and> (330 < t \<longrightarrow>
          fst (execute (DebouncedButton True)
                 (click_script @ released_polls (pre @ t # post))) =
            replicate (4 + length pre) NONE @ CLICK # replicate (length post) NONE)"
proof -
  assume pre: "\<forall>t \<in> set pre. 180 \<le> t \<and> t \<le> 330"
  have four: "replicate (4 + n) NONE = NONE # NONE # NONE # NONE # replicate n NONE" for n
    by (simp add: eval_nat_numeral)
  have early: "fst (execute (DebouncedButton True) (click_script @ released_polls pre)) =
      replicate (4 + length pre) NONE"
    by (simp add: execute_append execute_click_script execute_polls_early [OF pre] four)
  have late: "fst (execute (DebouncedButton True)
                 (click_script @ released_polls (pre @ t # post))) =
            replicate (4 + length pre) NONE @ CLICK # replicate (length post) NONE"
    if "330 < t"
  proof -
    have "execute released_at_180 (released_polls (pre @ t # post)) =
        (replicate (length pre) NONE @ CLICK # replicate (length post) NONE,
         released_at_180\<lparr> m_state := IDLE \<rparr>)"
      unfolding released_polls_append execute_append execute_step
      by (simp add: execute_polls_early [OF pre] update_released_late [OF that]
            execute_polls_idle)
    then show ?thesis
      by (simp add: execute_append [of _ click_script] execute_click_script four)
  qed
  from early late show ?thesis by blast
qed

theorem single_click_delivery_witness:
  "(180 :: u32) \<le> 200 \<and> (200 :: u32) \<le> 330 \<and> (180 :: u32) \<le> 330 \<and> (330 :: u32) \<le> 330
   \<and> (330 :: u32) < 351
   \<and> fst (execute (DebouncedButton True) (click_script @ released_polls [200, 330])) =
       [NONE, NONE, NONE, NONE, NONE, NONE]
   \<and> fst (execute (DebouncedButton True) (click_script @ released_polls [200, 330, 351, 400])) =
       [NONE, NONE, NONE, NONE, NONE, NONE, CLICK, NONE]"
proof -
  have h: "\<forall>t \<in> set [200, 330 :: u32]. 180 \<le> t \<and> t \<le> 330" by simp
  have l: "(330 :: u32) < 351" by simp
  have r: "replicate 6 NONE = [NONE, NONE, NONE, NONE, NONE, NONE]"
    by (simp add: eval_nat_numeral)
  show ?thesis
    using l single_click_delivery [OF h, of 351 "[400]"] by (simp add: r)
qed

section \<open>Replaying a script\<close>

text \<open>
  C8. \<open>update\<close> reads nothing but the members of the object and its two arguments, so in
  the model it is a function of them. Two freshly constructed buttons of the same
  polarity, given the same script, deliver the same inputs call by call and end in the
  same state; the timestamps need not even be ordered.
\<close>

theorem replay_deterministic:
  "b1 = DebouncedButton pressed_state \<Longrightarrow> b2 = DebouncedButton pressed_state \<Longrightarrow>
     fst (execute b1 script) = fst (execute b2 script)
     \<and> snd (execute b1 script) = snd (execute b2 script)"
  by simp

theorem replay_deterministic_witness:
  "fst (execute (DebouncedButton True) click_script) =
     fst (execute (DebouncedButton True) click_script)
   \<and> snd (execute (DebouncedButton True) click_script) =
     snd (execute (DebouncedButton True) click_script)"
  using replay_deterministic [OF refl refl, of True click_script] by simp

section \<open>Polarity\<close>

text \<open>
  \<open>update\<close> itself treats the two polarities alike: on two objects that differ in the
  polarity only, a reading and its negation give the same input and leave objects that
  again differ in the polarity only.
\<close>

lemma update_keeps_polarity: "m_pressed_state (snd (update b raw tm)) = m_pressed_state b"
  by (cases "m_state b") (simp_all add: update_def Let_def)

lemma update_other_polarity:
  "update (b\<lparr> m_pressed_state := \<not> m_pressed_state b \<rparr>) (\<not> raw) tm =
     (fst (update b raw tm),
      (snd (update b raw tm))\<lparr> m_pressed_state := \<not> m_pressed_state b \<rparr>)"
  by (cases "m_state b") (simp_all add: update_def duration_def Let_def)

lemma execute_other_polarity:
  "execute (b\<lparr> m_pressed_state := \<not> m_pressed_state b \<rparr>) (negated script) =
     (fst (execute b script),
      (snd (execute b script))\<lparr> m_pressed_state := \<not> m_pressed_state b \<rparr>)"
proof (induction script arbitrary: b)
  case Nil
  then show ?case by (simp add: negated_def)
next
  case (Cons c script)
  obtain reading tm where c: "c = (reading, tm)" by (cases c)
  have n: "negated ((reading, tm) # script) = (\<not> reading, tm) # negated script"
    by (simp add: negated_def)
  show ?case
    unfolding c n execute_step update_other_polarity
    using Cons.IH [of "snd (update b reading tm)"]
    by (simp add: update_keeps_polarity)
qed

text \<open>
  The constructor does not: besides the polarity, the object of inverted polarity
  differs from the default one in the previous reading, which \<open>update\<close> compares with
  normalised readings.
\<close>

lemma constructor_inverted:
  "DebouncedButton False =
     (DebouncedButton True)\<lparr> m_pressed_state := False, m_prev_reading := True \<rparr>"
  by (simp add: DebouncedButton_def)

text \<open>
  C6. A button of default polarity given \<^verbatim>\<open>update(true, 1000)\<close>, \<^verbatim>\<open>update(true, 1150)\<close>
  returns \<open>NONE\<close> twice; a button of inverted polarity given the negated readings at the
  same timestamps returns \<open>NONE\<close> and then \<open>LONG_PRESS\<close>.
\<close>

theorem polarity_inversion_differs:
  "fst (execute (DebouncedButton True) [(True, 1000), (True, 1150)]) = [NONE, NONE]
   \<and> negated [(True, 1000), (True, 1150)] = [(False, 1000), (False, 1150)]
   \<and> fst (execute (DebouncedButton False) (negated [(True, 1000), (True, 1150)])) =
       [NONE, LONG_PRESS]"
  by (simp add: negated_def update_def DebouncedButton_def consts_defs duration_def)

section \<open>Debouncing\<close>

text \<open>
  In terms of what the object has recorded, one call changes the debounced reading only
  when the normalised reading equals the previous reading and the wrapped difference
  between the timestamp and the recorded time of the last reading change is at least
  \<open>DEBOUNCE_MS\<close>.
\<close>

lemma debounced_reading_changes_only_when_stable:
  assumes "m_debounced_reading (snd (update b raw tm)) \<noteq> m_debounced_reading b"
  shows "m_prev_reading b = normalized b raw
     \<and> DEBOUNCE_MS \<le> tm - m_last_reading_change_tm b
     \<and> m_debounced_reading (snd (update b raw tm)) = normalized b raw"
  using assms
  by (cases "m_state b")
     (auto simp add: update_def normalized_def Let_def not_less split: if_splits)

text \<open>
  With default polarity a rapid script is suppressed: started on an idle object whose
  previous reading is the reading of the current run and, when that reading is
  \<open>True\<close>, whose recorded change time is the beginning of the run, every call returns
  \<open>NONE\<close> and the object stays idle with debounced reading \<open>False\<close>.
\<close>

lemma rapid_from_suppressed:
  assumes "m_pressed_state b" "m_state b = IDLE" "\<not> m_debounced_reading b"
    and "m_prev_reading b = r0" "r0 \<longrightarrow> m_last_reading_change_tm b = t0"
    and "rapid_from r0 t0 script"
  shows "fst (execute b script) = replicate (length script) NONE
     \<and> m_state (snd (execute b script)) = IDLE
     \<and> \<not> m_debounced_reading (snd (execute b script))"
  using assms
proof (induction script arbitrary: b r0 t0)
  case Nil
  then show ?case by simp
next
  case (Cons c script)
  obtain r t where c: "c = (r, t)" by (cases c)
  show ?case
  proof (cases "r = r0")
    case True
    with Cons.prems c have run: "t - t0 < DEBOUNCE_MS" "rapid_from r0 t0 script"
      by simp_all
    have "update b r t = (NONE, b)"
      using Cons.prems(1-5) True run(1) by (simp add: update_def Let_def)
    then show ?thesis
      unfolding c execute_step
      using Cons.IH [OF Cons.prems(1-5) run(2)] by simp
  next
    case False
    with Cons.prems c have run: "rapid_from r t script"
      by simp
    have u: "update b r t = (NONE, b\<lparr> m_last_reading_change_tm := t, m_prev_reading := r \<rparr>)"
      using Cons.prems(1-5) False by (simp add: update_def Let_def)
    have "fst (execute (b\<lparr> m_last_reading_change_tm := t, m_prev_reading := r \<rparr>) script) =
          replicate (length script) NONE
        \<and> m_state (snd (execute (b\<lparr> m_last_reading_change_tm := t, m_prev_reading := r \<rparr>)
            script)) = IDLE
        \<and> \<not> m_debounced_reading
            (snd (execute (b\<lparr> m_last_reading_change_tm := t, m_prev_reading := r \<rparr>) script))"
      using Cons.prems(1-3) by (intro Cons.IH [OF _ _ _ _ _ run]) simp_all
    then show ?thesis
      unfolding c execute_step u by simp
  qed
qed

lemma rapid_suppressed_default_polarity:
  assumes "rapid script"
  shows "fst (execute (DebouncedButton True) script) = replicate (length script) NONE
     \<and> m_state (snd (execute (DebouncedButton True) script)) = IDLE
     \<and> \<not> m_debounced_reading (snd (execute (DebouncedButton True) script))"
proof (cases script)
  case Nil
  then show ?thesis by (simp add: DebouncedButton_def)
next
  case (Cons c rest)
  obtain r t where c: "c = (r, t)" by (cases c)
  from assms Cons c have run: "rapid_from r t rest" by simp
  let ?b = "snd (update (DebouncedButton True) r t)"
  have u: "fst (update (DebouncedButton True) r t) = NONE"
    "m_pressed_state ?b" "m_state ?b = IDLE" "\<not> m_debounced_reading ?b"
    "m_prev_reading ?b = r" "r \<longrightarrow> m_last_reading_change_tm ?b = t"
    by (cases r; simp add: update_def DebouncedButton_def Let_def)+
  from rapid_from_suppressed [OF u(2-6) run] u(1)
  show ?thesis
    unfolding Cons c execute_step by simp
qed

text \<open>
  C3. With inverted polarity a rapid script is not suppressed. \<open>bounce_script\<close> is rapid
  and its timestamps do not decrease, yet the first call, \<^verbatim>\<open>update(false, 1000)\<close> on the
  fresh object, already changes the debounced reading, and the last call returns
  \<open>LONG_PRESS\<close>.
\<close>

theorem inverted_polarity_accepts_bounce:
  "rapid bounce_script
   \<and> sorted (map snd bounce_script)
   \<and> \<not> m_debounced_reading (DebouncedButton False)
   \<and> m_debounced_reading (snd (update (DebouncedButton False) False 1000))
   \<and> fst (execute (DebouncedButton False) bounce_script) =
       [NONE, NONE, NONE, NONE, NONE, NONE, NONE, NONE,
        NONE, NONE, NONE, NONE, NONE, NONE, NONE, LONG_PRESS]"
  by (simp add: bounce_script_def update_def DebouncedButton_def consts_defs duration_def)

end
